theory Spec2Isabelle
  imports Complex_Main "HOL-Library.Multiset"
begin

section \<open>Errors\<close>

text \<open>
  The exceptions that the functions of \<^verbatim>\<open>utils.py\<close> can raise themselves, or that the
  interpreter raises while running their own statements. A function that may raise returns
  \<open>py_error + 'a\<close>, with \<open>Inl\<close> for the exception.
\<close>

datatype py_error =
  ValueError string | NameError string | ZeroDivisionError | TypeError string

section \<open>The module namespace\<close>

text \<open>
  A name that a function body uses and does not bind itself is looked up, at the moment of
  use, in the namespace of the module (and then among the builtins, where \<^verbatim>\<open>len\<close>,
  \<^verbatim>\<open>max\<close> and \<^verbatim>\<open>range\<close> live). The namespace is therefore state that the function
  reads, and it is passed explicitly.

  \<open>utils_globals\<close> is the namespace that the top-level statements of \<^verbatim>\<open>utils.py\<close>
  establish: \<^verbatim>\<open>import math\<close> binds \<^verbatim>\<open>math\<close>; each \<^verbatim>\<open>from M import a, b\<close> binds
  \<^verbatim>\<open>a\<close> and \<^verbatim>\<open>b\<close> only (never the package \<^verbatim>\<open>M\<close> or its parent); each
  \<^verbatim>\<open>def\<close> binds the function's name.
\<close>

type_synonym globals = "string list"

definition utils_globals :: globals where
  "utils_globals =
     [''math'',
      ''load_dataset'', ''concatenate_datasets'',
      ''lr_scheduler'',
      ''DataLoader'', ''SequentialSampler'', ''BatchSampler'',
      ''create_data_loader'', ''load_reddit'', ''split_data'', ''init_schedule'',
      ''batch_by_instances'']"

definition lookup_global :: "globals \<Rightarrow> string \<Rightarrow> py_error + unit" where
  "lookup_global g name = (if name \<in> set g then Inr () else Inl (NameError name))"

section \<open>Learning-rate schedulers\<close>

subsection \<open>Numbers and the arithmetic of the multipliers\<close>

text \<open>
  A multiplier returns an integer, a float or a complex number; floats are idealised as reals
  (no rounding, no overflow). Only the operations that the multipliers of
  \<^verbatim>\<open>init_schedule\<close> use are modelled.
\<close>

datatype py_num = PyInt int | PyFloat real | PyComplex complex

fun is_complex :: "py_num \<Rightarrow> bool" where
  "is_complex (PyComplex z) = True"
| "is_complex x = False"

fun as_real :: "py_num \<Rightarrow> real" where
  "as_real (PyInt i) = real_of_int i"
| "as_real (PyFloat x) = x"
| "as_real (PyComplex z) = Re z"

fun as_complex :: "py_num \<Rightarrow> complex" where
  "as_complex (PyComplex z) = z"
| "as_complex x = complex_of_real (as_real x)"

text \<open>
  \<^verbatim>\<open>x ** y\<close> for a real base and a float exponent that is negative and not an integer (here
  \<^verbatim>\<open>-0.5\<close> and \<^verbatim>\<open>-1.5\<close>): a zero base raises, a negative base gives the complex principal
  value \<open>|x| ** y * (cos (pi * y) + i * sin (pi * y))\<close>.
\<close>

definition py_pow :: "real \<Rightarrow> real \<Rightarrow> py_error + py_num" where
  "py_pow x y =
     (if x = 0 then Inl ZeroDivisionError
      else if 0 < x then Inr (PyFloat (x powr y))
      else Inr (PyComplex (complex_of_real ((- x) powr y) * cis (pi * y))))"

text \<open>\<^verbatim>\<open>x * y\<close>: complex if either factor is, an integer if both are, a float otherwise.\<close>

definition py_times :: "py_num \<Rightarrow> py_num \<Rightarrow> py_num" where
  "py_times x y =
     (if is_complex x \<or> is_complex y then PyComplex (as_complex x * as_complex y)
      else case (x, y) of
             (PyInt i, PyInt j) \<Rightarrow> PyInt (i * j)
           | _ \<Rightarrow> PyFloat (as_real x * as_real y))"

text \<open>
  \<^verbatim>\<open>min(x, y)\<close>: the builtin keeps \<open>x\<close> unless \<^verbatim>\<open>y < x\<close>, and the comparison raises when
  one of the two is complex.
\<close>

definition py_min2 :: "py_num \<Rightarrow> py_num \<Rightarrow> py_error + py_num" where
  "py_min2 x y =
     (if is_complex x \<or> is_complex y then
        Inl (TypeError ''< not supported between instances of complex and float'')
      else if as_real y < as_real x then Inr y
      else Inr x)"

text \<open>
  The multiplier of the \<^verbatim>\<open>"noam"\<close> branch, with the two values it closes over:
  \<^verbatim>\<open>(emb_dim ** -0.5) * min((current_step+1) ** -0.5, (current_step+1) * (warmup_steps ** -1.5))\<close>,
  evaluated left to right.
\<close>

definition noam_multiplier :: "real \<Rightarrow> real \<Rightarrow> int \<Rightarrow> py_error + py_num" where
  "noam_multiplier emb_dim warmup_steps current_step =
     (case py_pow emb_dim (- (1 / 2)) of
        Inl e \<Rightarrow> Inl e
      | Inr a \<Rightarrow>
          (case py_pow (real_of_int (current_step + 1)) (- (1 / 2)) of
             Inl e \<Rightarrow> Inl e
           | Inr b \<Rightarrow>
               (case py_pow warmup_steps (- (3 / 2)) of
                  Inl e \<Rightarrow> Inl e
                | Inr c \<Rightarrow>
                    (case py_min2 b (py_times (PyInt (current_step + 1)) c) of
                       Inl e \<Rightarrow> Inl e
                     | Inr m \<Rightarrow> Inr (py_times a m)))))"

subsection \<open>The constructor calls and \<^verbatim>\<open>init_schedule\<close>\<close>

text \<open>
  The scheduler classes belong to the numeric library. A value of \<open>scheduler_call\<close> is one
  call of a constructor of the library, with its arguments: \<^verbatim>\<open>LambdaLR(optimizer, lr_lambda)\<close>,
  \<^verbatim>\<open>CosineAnnealingWarmRestarts(optimizer, T_0, T_mult, eta_min, last_epoch)\<close>,
  \<^verbatim>\<open>LinearLR(optimizer, start_factor, end_factor, total_iters)\<close> and
  \<^verbatim>\<open>OneCycleLR(optimizer, max_lr, total_steps, pct_start, anneal_strategy)\<close>. A multiplier
  is a function of the step that returns a number or raises.

  What the library does with a call (check the arguments, evaluate the multiplier, build the
  object, or raise) is a parameter \<open>build\<close> of \<^verbatim>\<open>init_schedule\<close>. An exception is
  recorded with the place it comes from: \<open>Here\<close> for a \<^verbatim>\<open>raise\<close> statement of
  \<^verbatim>\<open>utils.py\<close>, \<open>InLibrary\<close> for one that leaves a constructor call.
\<close>

datatype 'opt scheduler_call =
    LambdaLR 'opt "int \<Rightarrow> py_error + py_num"
  | CosineAnnealingWarmRestarts 'opt int int real int
  | LinearLR 'opt real real int
  | OneCycleLR 'opt real int real string

datatype raised = Here py_error | InLibrary py_error

definition from_library :: "py_error + 's \<Rightarrow> raised + 's" where
  "from_library r = (case r of Inl e \<Rightarrow> Inl (InLibrary e) | Inr s \<Rightarrow> Inr s)"

definition init_schedule ::
  "('opt scheduler_call \<Rightarrow> py_error + 's) \<Rightarrow>
   'opt \<Rightarrow> string \<Rightarrow> 'b list \<Rightarrow> real \<Rightarrow> int \<Rightarrow> real \<Rightarrow> raised + 's" where
  "init_schedule build optimizer sched train_loader lr epochs emb_dim =
     (if sched = ''constant'' \<or> sched = ''none'' then
        from_library (build (LambdaLR optimizer (\<lambda>_. Inr (PyInt 1))))
      else if sched = ''cosineannealing'' then
        from_library (build (CosineAnnealingWarmRestarts optimizer 10 1 0 (- 1)))
      else if sched = ''invsqrt'' then
        from_library (build (LambdaLR optimizer
          (\<lambda>epoch. if epoch > 0 then Inr (PyFloat (1 / sqrt (real_of_int epoch)))
                    else Inr (PyInt 1))))
      else if sched = ''linear'' then
        from_library (build
          (LinearLR optimizer (lr / 5) lr (int (length train_loader) * epochs)))
      else if sched = ''onecycle'' then
        from_library (build
          (OneCycleLR optimizer lr (int (length train_loader) * epochs) (3 / 10) ''linear''))
      else if sched = ''noam'' then
        (let warmup_steps = (3 / 10) * real (length train_loader) * real_of_int epochs
         in from_library (build
              (LambdaLR optimizer (\<lambda>current_step. noam_multiplier emb_dim warmup_steps current_step))))
      else Inl (Here (ValueError ''Invalid scheduler option provided.'')))"



text \<open>
  A stand-in for the constructors of the library, to evaluate \<^verbatim>\<open>init_schedule\<close> on concrete
  arguments: the built object is represented by the call that built it. \<^verbatim>\<open>LambdaLR\<close>
  evaluates the multiplier at step 0; \<^verbatim>\<open>LinearLR\<close> wants \<open>0 < start_factor \<le> 1\<close> and
  \<open>0 \<le> end_factor \<le> 1\<close>; \<^verbatim>\<open>OneCycleLR\<close> wants a positive \<^verbatim>\<open>total_steps\<close>.
\<close>

definition build_checked :: "'opt scheduler_call \<Rightarrow> py_error + 'opt scheduler_call" where
  "build_checked call =
     (case call of
        LambdaLR optimizer lr_lambda \<Rightarrow>
          (case lr_lambda 0 of Inl e \<Rightarrow> Inl e | Inr _ \<Rightarrow> Inr call)
      | CosineAnnealingWarmRestarts optimizer T_0 T_mult eta_min last_epoch \<Rightarrow> Inr call
      | LinearLR optimizer start_factor end_factor total_iters \<Rightarrow>
          (if start_factor > 1 \<or> start_factor \<le> 0 then
             Inl (ValueError ''Starting multiplicative factor expected to be greater than 0 and less or equal to 1.'')
           else if end_factor > 1 \<or> end_factor < 0 then
             Inl (ValueError ''Ending multiplicative factor expected to be between 0 and 1.'')
           else Inr call)
      | OneCycleLR optimizer max_lr total_steps pct_start anneal_strategy \<Rightarrow>
          (if total_steps \<le> 0 then Inl (ValueError ''Expected positive integer total_steps'')
           else Inr call))"

section \<open>Batching\<close>

text \<open>
  \<^verbatim>\<open>max(len(x) for x in batch_x)\<close>: the builtin raises on an empty iterable.
\<close>

definition py_max :: "nat list \<Rightarrow> py_error + nat" where
  "py_max xs =
     (case xs of
        [] \<Rightarrow> Inl (ValueError ''max() arg is an empty sequence'')
      | y # ys \<Rightarrow> Inr (fold max ys y))"

text \<open>\<^verbatim>\<open>seq + [pad_token] * (max_len - len(seq))\<close>; a non-positive count gives the empty list.\<close>

definition pad_seq :: "nat \<Rightarrow> int \<Rightarrow> int list \<Rightarrow> int list" where
  "pad_seq max_len pad_token seq = seq @ replicate (max_len - length seq) pad_token"

text \<open>
  The loop \<^verbatim>\<open>for i in range(0, len(sequences), batch_size)\<close> for a positive step, from the
  index \<open>i\<close> on, with the two accumulators. A tensor is modelled by the integers it holds; the
  device is carried along and does not change them. The first use of the name \<^verbatim>\<open>torch\<close> in
  the body (\<^verbatim>\<open>torch.stack\<close>, evaluated after \<^verbatim>\<open>max_len\<close>) is the lookup that decides
  whether the body goes on; the later uses read the same binding.
\<close>

function batch_loop ::
  "globals \<Rightarrow> 'dev \<Rightarrow> int list list \<Rightarrow> int list \<Rightarrow> nat \<Rightarrow> int \<Rightarrow> nat \<Rightarrow>
   int list list list \<times> int list list \<Rightarrow> py_error + (int list list list \<times> int list list)" where
  "batch_loop g device sequences labels batch_size pad_token i (batches_x, batches_y) =
     (if batch_size = 0 \<or> length sequences \<le> i then Inr (batches_x, batches_y)
      else
        (let batch_x = take batch_size (drop i sequences);
             batch_y = take batch_size (drop i labels)
         in case py_max (map length batch_x) of
              Inl e \<Rightarrow> Inl e
            | Inr max_len \<Rightarrow>
                (case lookup_global g ''torch'' of
                   Inl e \<Rightarrow> Inl e
                 | Inr _ \<Rightarrow>
                     batch_loop g device sequences labels batch_size pad_token (i + batch_size)
                       (batches_x @ [map (pad_seq max_len pad_token) batch_x],
                        batches_y @ [batch_y]))))"
  by pat_completeness auto
termination
  by (relation "measure (\<lambda>(g, device, sequences, labels, batch_size, pad_token, i, acc).
                            length sequences - i)") auto

declare batch_loop.simps [simp del]

text \<open>
  \<^verbatim>\<open>batch_by_instances\<close>. \<^verbatim>\<open>range\<close> raises for a zero step and is empty for a negative
  one.
\<close>

definition batch_by_instances ::
  "globals \<Rightarrow> 'dev \<Rightarrow> int list list \<Rightarrow> int list \<Rightarrow> int \<Rightarrow> int \<Rightarrow>
   py_error + (int list list list \<times> int list list)" where
  "batch_by_instances g device sequences labels batch_size pad_token =
     (if batch_size = 0 then Inl (ValueError ''range() arg 3 must not be zero'')
      else if batch_size < 0 then Inr ([], [])
      else batch_loop g device sequences labels (nat batch_size) pad_token 0 ([], []))"

section \<open>The Reddit TIFU dataset\<close>

text \<open>
  A row of the corpus as the dataset hub delivers it: four numeric columns (of some type
  \<open>'m\<close>) and three texts. A text is a list of characters of some type \<open>'c\<close>;
  \<^verbatim>\<open>len\<close> of a text is the length of the list. A dataset is the list of its rows.
\<close>

record ('c, 'm) tifu_row =
  ups :: 'm
  num_comments :: 'm
  upvote_ratio :: 'm
  score :: 'm
  documents :: "'c list"
  tldr :: "'c list"
  title :: "'c list"

record 'c pair_row =
  document :: "'c list"
  summary :: "'c list"

record 'c tifu_instance = "'c pair_row" +
  doc_len :: nat

text \<open>
  \<^verbatim>\<open>remove_columns\<close> followed by \<^verbatim>\<open>rename_columns\<close>: the short configuration keeps the
  title as the summary, the long one keeps \<^verbatim>\<open>tldr\<close>.
\<close>

definition short_row :: "('c, 'm) tifu_row \<Rightarrow> 'c pair_row" where
  "short_row r = \<lparr>document = documents r, summary = title r\<rparr>"

definition long_row :: "('c, 'm) tifu_row \<Rightarrow> 'c pair_row" where
  "long_row r = \<lparr>document = documents r, summary = tldr r\<rparr>"

text \<open>The predicate of \<^verbatim>\<open>dataset.filter\<close>; \<^verbatim>\<open>min_len\<close> is an integer of any sign.\<close>

definition long_enough :: "int \<Rightarrow> 'c pair_row \<Rightarrow> bool" where
  "long_enough min_len x =
     (int (length (document x)) > min_len
      \<and> int (length (summary x)) > min_len
      \<and> length (document x) > length (summary x))"

text \<open>The function of \<^verbatim>\<open>dataset.map\<close>: the row gains the column \<^verbatim>\<open>doc_len\<close>.\<close>

definition add_doc_len :: "'c pair_row \<Rightarrow> 'c tifu_instance" where
  "add_doc_len x =
     \<lparr>document = document x, summary = summary x, doc_len = length (document x)\<rparr>"

subsection \<open>The operations of the dataset library that draw at random\<close>

text \<open>
  \<^verbatim>\<open>shuffle\<close> and \<^verbatim>\<open>train_test_split\<close> belong to the dataset library, draw at random, and
  round a float ratio to a number of rows. They are parameters of the functions that call them:
  \<^item> \<open>shuffle g ds\<close> returns the shuffled rows and the next state of the random source
    (\<^verbatim>\<open>flatten_indices\<close> rewrites the storage and leaves the rows as they are);
  \<^item> \<open>train_test_split g test_size ds\<close> raises, or returns the pair of the
    \<^verbatim>\<open>'train'\<close> and the \<^verbatim>\<open>'test'\<close> part and the next state of the random source.
  The ratios have any type \<open>'r\<close> with \<open>0\<close>, \<open>1\<close>, subtraction and division.

  What the statements about the partitions assume of the library is that neither operation
  loses, adds or repeats a row:
\<close>

definition shuffle_permutes :: "('g \<Rightarrow> 'a list \<Rightarrow> 'a list \<times> 'g) \<Rightarrow> bool" where
  "shuffle_permutes shuffle = (\<forall>g ds. mset (fst (shuffle g ds)) = mset ds)"

definition split_partitions ::
  "('g \<Rightarrow> 'r \<Rightarrow> 'a list \<Rightarrow> py_error + (('a list \<times> 'a list) \<times> 'g)) \<Rightarrow> bool" where
  "split_partitions train_test_split =
     (\<forall>g test_size ds tr te g'.
        train_test_split g test_size ds = Inr ((tr, te), g') \<longrightarrow> mset tr + mset te = mset ds)"

text \<open>
  \<^verbatim>\<open>split_data\<close>. The argument of the second split is computed before the call, and the
  division raises when \<^verbatim>\<open>1 - train_split\<close> is zero.
\<close>

definition split_data ::
  "('g \<Rightarrow> 'a list \<Rightarrow> 'a list \<times> 'g) \<Rightarrow>
   ('g \<Rightarrow> 'r \<Rightarrow> 'a list \<Rightarrow> py_error + (('a list \<times> 'a list) \<times> 'g)) \<Rightarrow>
   'g \<Rightarrow> 'a list \<Rightarrow> 'r::{zero,one,minus,inverse} \<Rightarrow> 'r \<Rightarrow>
   py_error + (('a list \<times> 'a list \<times> 'a list) \<times> 'g)" where
  "split_data shuffle train_test_split g dataset train_split val_split =
     (case shuffle g dataset of
        (shuffled, g1) \<Rightarrow>
          (case train_test_split g1 (1 - train_split) shuffled of
             Inl e \<Rightarrow> Inl e
           | Inr ((train_dataset, held_out), g2) \<Rightarrow>
               if 1 - train_split = 0 then Inl ZeroDivisionError
               else
                 (case train_test_split g2 (1 - val_split / (1 - train_split)) held_out of
                    Inl e \<Rightarrow> Inl e
                  | Inr ((val_dataset, test_dataset), g3) \<Rightarrow>
                      Inr ((train_dataset, val_dataset, test_dataset), g3))))"

text \<open>
  \<^verbatim>\<open>load_reddit\<close>, from the \<^verbatim>\<open>'train'\<close> splits of the two configurations that
  \<^verbatim>\<open>load_dataset\<close> fetched. \<^verbatim>\<open>concatenate_datasets\<close> appends, \<^verbatim>\<open>filter\<close> keeps the
  rows that pass in their order, \<^verbatim>\<open>map\<close> rewrites each row, \<^verbatim>\<open>sort\<close> is ascending in
  the named column.
\<close>

definition load_reddit ::
  "('g \<Rightarrow> 'c tifu_instance list \<Rightarrow> 'c tifu_instance list \<times> 'g) \<Rightarrow>
   ('g \<Rightarrow> 'r \<Rightarrow> 'c tifu_instance list \<Rightarrow>
      py_error + (('c tifu_instance list \<times> 'c tifu_instance list) \<times> 'g)) \<Rightarrow>
   'g \<Rightarrow> ('c, 'm) tifu_row list \<Rightarrow> ('c, 'm) tifu_row list \<Rightarrow>
   'r::{zero,one,minus,inverse} \<Rightarrow> 'r \<Rightarrow> int \<Rightarrow>
   py_error + (('c tifu_instance list \<times> 'c tifu_instance list \<times> 'c tifu_instance list) \<times> 'g)" where
  "load_reddit shuffle train_test_split g short_train long_train train_split val_split min_len =
     (let dataset_short = map short_row short_train;
          dataset_long = map long_row long_train;
          dataset = dataset_short @ dataset_long;
          dataset = filter (long_enough min_len) dataset;
          dataset = map add_doc_len dataset
      in case split_data shuffle train_test_split g dataset train_split val_split of
           Inl e \<Rightarrow> Inl e
         | Inr ((train_dataset, val_dataset, test_dataset), g') \<Rightarrow>
             Inr ((sort_key doc_len train_dataset,
                   sort_key doc_len val_dataset,
                   sort_key doc_len test_dataset), g'))"

subsection \<open>One behaviour of the library, for running the functions on data\<close>

text \<open>
  A deterministic stand-in for the two library operations, with rational ratios and no
  random state: the shuffle reverses, and the split puts the first
  \<open>\<lceil>test_size * n\<rceil>\<close> rows in the \<^verbatim>\<open>'test'\<close> part and the others in the
  \<^verbatim>\<open>'train'\<close> part, refusing a ratio outside the open unit interval and an empty
  \<^verbatim>\<open>'train'\<close> part. It serves to evaluate the functions above on concrete rows.
\<close>

definition rev_shuffle :: "unit \<Rightarrow> 'a list \<Rightarrow> 'a list \<times> unit" where
  "rev_shuffle g ds = (rev ds, g)"

definition ceil_split ::
  "unit \<Rightarrow> rat \<Rightarrow> 'a list \<Rightarrow> py_error + (('a list \<times> 'a list) \<times> unit)" where
  "ceil_split g test_size ds =
     (if test_size \<le> 0 \<or> 1 \<le> test_size then
        Inl (ValueError ''test_size should be in the (0, 1) range'')
      else
        (let n_test = nat \<lceil>test_size * of_nat (length ds)\<rceil>;
             n_train = length ds - n_test
         in if n_train = 0 then Inl (ValueError ''the resulting train set will be empty'')
            else Inr ((drop n_test ds, take n_test ds), g)))"

text \<open>Rows of the two configurations to run \<^verbatim>\<open>load_reddit\<close> on.\<close>

definition sample_short :: "(char, int) tifu_row list" where
  "sample_short =
     [\<lparr>ups = 1, num_comments = 0, upvote_ratio = 1, score = 1,
       documents = ''abcdef'', tldr = ''zz'', title = ''abc''\<rparr>,
      \<lparr>ups = 2, num_comments = 1, upvote_ratio = 1, score = 2,
       documents = ''abcd'', tldr = [], title = ''ab''\<rparr>,
      \<lparr>ups = 3, num_comments = 0, upvote_ratio = 1, score = 3,
       documents = ''abcdefgh'', tldr = [], title = ''abcd''\<rparr>]"

definition sample_long :: "(char, int) tifu_row list" where
  "sample_long =
     [\<lparr>ups = 4, num_comments = 2, upvote_ratio = 1, score = 4,
       documents = ''abcde'', tldr = ''abc'', title = ''t''\<rparr>,
      \<lparr>ups = 5, num_comments = 0, upvote_ratio = 1, score = 5,
       documents = ''abcdefghij'', tldr = ''abcde'', title = []\<rparr>,
      \<lparr>ups = 6, num_comments = 3, upvote_ratio = 1, score = 6,
       documents = ''abc'', tldr = ''abcd'', title = ''u''\<rparr>]"

section \<open>Properties of \<^verbatim>\<open>init_schedule\<close>\<close>






lemma noam_multiplier_positive:
  assumes "0 < emb_dim" "0 < warmup_steps" "0 \<le> current_step"
  shows "\<exists>x. noam_multiplier emb_dim warmup_steps current_step = Inr (PyFloat x)"
proof -
  have a: "py_pow emb_dim (- (1 / 2)) = Inr (PyFloat (emb_dim powr (- (1 / 2))))"
    using assms(1) by (simp add: py_pow_def)
  have b: "py_pow (real_of_int (current_step + 1)) (- (1 / 2))
      = Inr (PyFloat (real_of_int (current_step + 1) powr (- (1 / 2))))"
    using assms(3) by (simp add: py_pow_def)
  have c: "py_pow warmup_steps (- (3 / 2)) = Inr (PyFloat (warmup_steps powr (- (3 / 2))))"
    using assms(2) by (simp add: py_pow_def)
  have "\<exists>y. py_min2 (PyFloat (real_of_int (current_step + 1) powr (- (1 / 2))))
      (py_times (PyInt (current_step + 1)) (PyFloat (warmup_steps powr (- (3 / 2)))))
      = Inr (PyFloat y)"
    by (simp add: py_min2_def py_times_def)
  then obtain y where m: "py_min2 (PyFloat (real_of_int (current_step + 1) powr (- (1 / 2))))
      (py_times (PyInt (current_step + 1)) (PyFloat (warmup_steps powr (- (3 / 2)))))
      = Inr (PyFloat y)" ..
  have "noam_multiplier emb_dim warmup_steps current_step
      = Inr (py_times (PyFloat (emb_dim powr (- (1 / 2)))) (PyFloat y))"
    by (simp only: noam_multiplier_def a b c sum.case m)
  then show ?thesis by (simp add: py_times_def)
qed




text \<open>Runs of \<^verbatim>\<open>init_schedule\<close> with the stand-in for the constructors.\<close>

lemma init_schedule_noam_run:
  "\<exists>f. init_schedule build_checked () ''noam'' (replicate 10 ()) (1 / 1000) 3 512
          = Inr (LambdaLR () f)"
proof -
  obtain x where "noam_multiplier 512 ((3 / 10) * real (length (replicate 10 ())) * real_of_int 3) 0
      = Inr (PyFloat x)"
    using noam_multiplier_positive[of 512 "(3 / 10) * real (length (replicate 10 ())) * real_of_int 3" 0]
    by auto
  then show ?thesis
    by (simp add: init_schedule_def build_checked_def from_library_def)
qed




text \<open>
  C9. The names \<^verbatim>\<open>"constant"\<close> and \<^verbatim>\<open>"none"\<close> give the same result: that of the call
  of \<^verbatim>\<open>LambdaLR\<close> on the given optimizer with a multiplier that returns 1 at every step.
  With the stand-in for the constructor, which returns whenever the multiplier does at step 0,
  the result is that scheduler itself.
\<close>

theorem init_schedule_constant_equals_none:
  "init_schedule build optimizer ''constant'' train_loader lr epochs emb_dim
     = init_schedule build optimizer ''none'' train_loader lr epochs emb_dim
   \<and> (\<exists>f. init_schedule build optimizer ''none'' train_loader lr epochs emb_dim
             = from_library (build (LambdaLR optimizer f))
          \<and> init_schedule build_checked optimizer ''none'' train_loader lr epochs emb_dim
             = Inr (LambdaLR optimizer f)
          \<and> init_schedule build_checked optimizer ''constant'' train_loader lr epochs emb_dim
             = Inr (LambdaLR optimizer f)
          \<and> (\<forall>step. f step = Inr (PyInt 1)))"
proof -
  define f :: "int \<Rightarrow> py_error + py_num" where "f = (\<lambda>_. Inr (PyInt 1))"
  have n: "init_schedule build optimizer ''none'' train_loader lr epochs emb_dim
      = from_library (build (LambdaLR optimizer f))"
    and c: "init_schedule build optimizer ''constant'' train_loader lr epochs emb_dim
      = from_library (build (LambdaLR optimizer f))"
    by (simp_all add: init_schedule_def f_def)
  have n': "init_schedule build_checked optimizer ''none'' train_loader lr epochs emb_dim
      = Inr (LambdaLR optimizer f)"
    and c': "init_schedule build_checked optimizer ''constant'' train_loader lr epochs emb_dim
      = Inr (LambdaLR optimizer f)"
    by (simp_all add: init_schedule_def build_checked_def from_library_def f_def)
  have one: "\<forall>step. f step = Inr (PyInt 1)" by (simp add: f_def)
  have "init_schedule build optimizer ''none'' train_loader lr epochs emb_dim
             = from_library (build (LambdaLR optimizer f))
          \<and> init_schedule build_checked optimizer ''none'' train_loader lr epochs emb_dim
             = Inr (LambdaLR optimizer f)
          \<and> init_schedule build_checked optimizer ''constant'' train_loader lr epochs emb_dim
             = Inr (LambdaLR optimizer f)
          \<and> (\<forall>step. f step = Inr (PyInt 1))"
    using n n' c' one by (intro conjI)
  then have "\<exists>f. init_schedule build optimizer ''none'' train_loader lr epochs emb_dim
             = from_library (build (LambdaLR optimizer f))
          \<and> init_schedule build_checked optimizer ''none'' train_loader lr epochs emb_dim
             = Inr (LambdaLR optimizer f)
          \<and> init_schedule build_checked optimizer ''constant'' train_loader lr epochs emb_dim
             = Inr (LambdaLR optimizer f)
          \<and> (\<forall>step. f step = Inr (PyInt 1))"
    by (rule exI[of _ f])
  moreover have "init_schedule build optimizer ''constant'' train_loader lr epochs emb_dim
     = init_schedule build optimizer ''none'' train_loader lr epochs emb_dim"
    using n c by simp
  ultimately show ?thesis by (rule conjI[rotated])
qed

section \<open>Properties of \<^verbatim>\<open>batch_by_instances\<close>\<close>

lemma torch_unbound: "lookup_global utils_globals ''torch'' = Inl (NameError ''torch'')"
  by (simp add: lookup_global_def utils_globals_def)

lemma py_max_nonempty: "xs \<noteq> [] \<Longrightarrow> \<exists>m. py_max xs = Inr m"
  by (cases xs) (simp_all add: py_max_def)

text \<open>
  When the name \<^verbatim>\<open>torch\<close> is not bound, an iteration of the loop that is entered raises.
\<close>

lemma batch_loop_unbound:
  assumes "lookup_global g ''torch'' = Inl e" "0 < batch_size" "i < length sequences"
  shows "batch_loop g device sequences labels batch_size pad_token i acc = Inl e"
proof -
  obtain bx bys where acc: "acc = (bx, bys)" by (cases acc)
  have "map length (take batch_size (drop i sequences)) \<noteq> []" using assms by simp
  then obtain m where "py_max (map length (take batch_size (drop i sequences))) = Inr m"
    using py_max_nonempty by blast
  then show ?thesis using assms unfolding acc
    by (subst batch_loop.simps) (simp add: Let_def)
qed

text \<open>
  In the namespace of \<^verbatim>\<open>utils.py\<close>, every call with a sequence and a positive batch size
  raises \<^verbatim>\<open>NameError\<close>: the module never imports \<^verbatim>\<open>torch\<close> itself.
\<close>

lemma batch_by_instances_unbound:
  assumes "sequences \<noteq> []" "0 < batch_size"
  shows "batch_by_instances utils_globals device sequences labels batch_size pad_token
           = Inl (NameError ''torch'')"
  using assms batch_loop_unbound[OF torch_unbound, of "nat batch_size" 0 sequences]
  by (simp add: batch_by_instances_def)

text \<open>
  C1 (code defect). Three sequences with batch size 2 should give \<open>\<lceil>3 / 2\<rceil> = 2\<close> batches;
  the call raises instead.
\<close>

theorem batch_by_instances_three_by_two:
  "batch_by_instances utils_globals () [[1], [2], [3]] [0, 1, 2] 2 0 = Inl (NameError ''torch'')"
  by (rule batch_by_instances_unbound) simp_all

text \<open>
  C2 (code defect). A batch of sequences of lengths 3 and 1 should come back padded to length
  3 with the pad token 9; the call raises before any batch is built.
\<close>

theorem batch_by_instances_uneven_batch:
  "batch_by_instances utils_globals () [[1, 2, 3], [4]] [1, 0] 2 9 = Inl (NameError ''torch'')"
  by (rule batch_by_instances_unbound) simp_all

text \<open>C3 (code defect). The example of the specification raises.\<close>

theorem batch_by_instances_spec_example:
  "batch_by_instances utils_globals () [[1, 2], [3]] [0, 1] 2 0 = Inl (NameError ''torch'')"
  by (rule batch_by_instances_unbound) simp_all

text \<open>
  C8 (code defect). With batch size 1 the label batches should concatenate to the labels and
  each row should start with its sequence; the call raises.
\<close>

theorem batch_by_instances_singleton_batches:
  "batch_by_instances utils_globals () [[5], [6, 7]] [1, 0] 1 0 = Inl (NameError ''torch'')"
  by (rule batch_by_instances_unbound) simp_all

text \<open>
  C10, as amended. For no sequences and no labels and a batch size other than zero, the
  result is the pair of two empty lists: the loop body is never entered, so neither the
  maximum nor the name \<^verbatim>\<open>torch\<close> is evaluated.
\<close>

theorem batch_by_instances_empty:
  "batch_size \<noteq> 0 \<Longrightarrow>
   batch_by_instances g device [] [] batch_size pad_token = Inr ([], [])"
  by (simp add: batch_by_instances_def batch_loop.simps)

theorem batch_by_instances_empty_witness:
  "(32 :: int) \<noteq> 0 \<and> batch_by_instances utils_globals () [] [] 32 0 = Inr ([], [])"
  using batch_by_instances_empty[of 32 utils_globals "()" 0] by simp

text \<open>
  The claim C10 as stated, for every batch size, fails at batch size zero, where
  \<^verbatim>\<open>range\<close> raises before the loop.
\<close>

theorem batch_by_instances_empty_counterexample:
  "batch_by_instances utils_globals () [] [] 0 0
     = Inl (ValueError ''range() arg 3 must not be zero'')
   \<and> batch_by_instances utils_globals () [] [] 0 0 \<noteq> Inr ([], [])"
  by (simp add: batch_by_instances_def)

subsection \<open>What the loop does in a namespace that binds \<^verbatim>\<open>torch\<close>\<close>

text \<open>
  The statements of this subsection are about namespaces other than that of \<^verbatim>\<open>utils.py\<close>:
  they show that the missing binding is all that keeps the loop from building the batches.
\<close>

lemma py_max_Max: "xs \<noteq> [] \<Longrightarrow> py_max xs = Inr (Max (set xs))"
proof (cases xs)
  case Nil
  assume "xs \<noteq> []"
  with Nil show ?thesis by simp
next
  case (Cons y ys)
  have "fold max ys y = Max (set (y # ys))" by (rule Max.set_eq_fold[symmetric])
  with Cons show ?thesis by (simp add: py_max_def)
qed

lemma batch_count_step:
  fixes b i n :: nat
  assumes "0 < b" "i < n"
  shows "(n - i + b - 1) div b = Suc ((n - (i + b) + b - 1) div b)"
proof (cases "i + b \<le> n")
  case True
  define m where "m = n - (i + b) + b - 1"
  have "n - i + b - 1 = m + b" using True assms by (simp add: m_def)
  moreover have "(m + b) div b = Suc (m div b)" using assms(1) by simp
  ultimately show ?thesis by (simp add: m_def)
next
  case False
  define r where "r = n - i - 1"
  have e: "n - i + b - 1 = r + b" and r: "r < b" using False assms by (simp_all add: r_def)
  have "(r + b) div b = Suc 0" using r by simp
  then have "(n - i + b - 1) div b = Suc 0" unfolding e .
  moreover have "n - (i + b) + b - 1 = b - 1" using False by simp
  moreover have "(b - 1) div b = 0" using assms(1) by simp
  ultimately show ?thesis by (simp only:)
qed

lemma batch_loop_bound:
  assumes "lookup_global g ''torch'' = Inr ()" "0 < b"
  shows "batch_loop g device sequences labels b pad_token i (bx, bys) =
     Inr (bx @ map (\<lambda>k. map (pad_seq (Max (length ` set (take b (drop (i + k * b) sequences))))
                                  pad_token)
                           (take b (drop (i + k * b) sequences)))
                 [0..<(length sequences - i + b - 1) div b],
          bys @ map (\<lambda>k. take b (drop (i + k * b) labels))
                  [0..<(length sequences - i + b - 1) div b])"
proof (induction "length sequences - i" arbitrary: i bx bys rule: less_induct)
  case less
  show ?case
  proof (cases "length sequences \<le> i")
    case True
    then have "(length sequences - i + b - 1) div b = 0" using assms(2) by simp
    with True show ?thesis by (subst batch_loop.simps) simp
  next
    case False
    then have lt: "i < length sequences" by simp
    then have ne: "map length (take b (drop i sequences)) \<noteq> []" using assms(2) by simp
    have step: "(length sequences - i + b - 1) div b
        = Suc ((length sequences - (i + b) + b - 1) div b)"
      using assms(2) lt by (rule batch_count_step)
    have smaller: "length sequences - (i + b) < length sequences - i"
      using assms(2) lt by simp
    have "batch_loop g device sequences labels b pad_token i (bx, bys) =
        batch_loop g device sequences labels b pad_token (i + b)
          (bx @ [map (pad_seq (Max (length ` set (take b (drop i sequences)))) pad_token)
                   (take b (drop i sequences))],
           bys @ [take b (drop i labels)])"
      using lt assms py_max_Max[OF ne]
      by (subst batch_loop.simps) (simp add: Let_def)
    also note less.hyps[OF smaller]
    finally show ?thesis
      unfolding step map_upt_Suc by (simp add: ac_simps)
  qed
qed

lemma chunks_cover:
  fixes n b :: nat
  assumes "0 < b"
  shows "n \<le> (n + b - 1) div b * b"
proof -
  have "(n + b - 1) mod b < b" using assms by simp
  moreover have "(n + b - 1) div b * b + (n + b - 1) mod b = n + b - 1" by simp
  ultimately show ?thesis by linarith
qed

lemma ceil_div_nat:
  fixes n b :: nat
  assumes "0 < b"
  shows "nat \<lceil>real n / real b\<rceil> = (n + b - 1) div b"
proof -
  define q where "q = (n + b - 1) div b"
  have up: "n \<le> q * b" unfolding q_def using assms by (rule chunks_cover)
  have "q * b \<le> n + b - 1" unfolding q_def by simp
  then have low: "q * b < n + b" using assms by linarith
  have "real n / real b \<le> real q"
    using up assms by (simp add: pos_divide_le_eq flip: of_nat_mult)
  moreover have "real q - 1 < real n / real b"
  proof -
    have "real (q * b) < real (n + b)" using low by (simp only: of_nat_less_iff)
    then have "(real q - 1) * real b < real n" by (simp add: algebra_simps)
    then show ?thesis using assms by (simp add: pos_less_divide_eq)
  qed
  ultimately have "\<lceil>real n / real b\<rceil> = int q"
    by (intro ceiling_unique) simp_all
  then show ?thesis unfolding q_def by simp
qed

lemma concat_chunks: "concat (map (\<lambda>k. take b (drop (k * b) xs)) [0..<c]) = take (c * b) xs"
proof (induction c)
  case 0
  show ?case by simp
next
  case (Suc c)
  have "take (Suc c * b) xs = take (c * b + b) xs" by (simp add: add.commute)
  also have "\<dots> = take (c * b) xs @ take b (drop (c * b) xs)" by (rule take_add)
  finally show ?case using Suc by simp
qed

lemma length_pad_seq: "length seq \<le> m \<Longrightarrow> length (pad_seq m pad_token seq) = m"
  by (simp add: pad_seq_def)

lemma torch_bound: "''torch'' \<in> set g \<Longrightarrow> lookup_global g ''torch'' = Inr ()"
  by (simp add: lookup_global_def)

text \<open>
  In a namespace that binds \<^verbatim>\<open>torch\<close>, with a positive batch size \<open>b\<close>, the result is the
  list of the chunks of \<open>b\<close> sequences, each padded to its own longest sequence, and the list
  of the chunks of \<open>b\<close> labels.
\<close>

lemma batch_by_instances_bound:
  assumes "''torch'' \<in> set g" "0 < batch_size"
  shows "batch_by_instances g device sequences labels batch_size pad_token =
     Inr (map (\<lambda>k. map (pad_seq (Max (length `
                           set (take (nat batch_size) (drop (k * nat batch_size) sequences))))
                         pad_token)
                    (take (nat batch_size) (drop (k * nat batch_size) sequences)))
            [0..<(length sequences + nat batch_size - 1) div nat batch_size],
          map (\<lambda>k. take (nat batch_size) (drop (k * nat batch_size) labels))
            [0..<(length sequences + nat batch_size - 1) div nat batch_size])"
proof -
  have b: "0 < nat batch_size" using assms(2) by simp
  show ?thesis
    using assms(2) batch_loop_bound[OF torch_bound[OF assms(1)] b,
        of device sequences labels pad_token 0 "[]" "[]"]
    by (simp add: batch_by_instances_def)
qed

text \<open>The number of batches is \<open>\<lceil>n / b\<rceil>\<close>, for the sequences and for the labels.\<close>

lemma batch_by_instances_bound_count:
  assumes "''torch'' \<in> set g" "0 < batch_size"
    and "batch_by_instances g device sequences labels batch_size pad_token = Inr (bx, bys)"
  shows "length bx = nat \<lceil>real (length sequences) / real_of_int batch_size\<rceil>
       \<and> length bys = length bx"
proof -
  define b where "b = nat batch_size"
  define c where "c = (length sequences + b - 1) div b"
  have b: "0 < b" using assms(2) by (simp add: b_def)
  have cast: "real_of_int batch_size = real b"
    using assms(2) unfolding b_def by (metis of_nat_nat order_less_imp_le)
  have "nat \<lceil>real (length sequences) / real b\<rceil> = c"
    unfolding c_def using b by (rule ceil_div_nat)
  then have ceil: "nat \<lceil>real (length sequences) / real_of_int batch_size\<rceil> = c"
    by (simp only: cast)
  from assms(3) have "length bx = c \<and> length bys = c"
    unfolding batch_by_instances_bound[OF assms(1,2)] b_def[symmetric] c_def[symmetric]
    by auto
  then show ?thesis by (simp only: ceil)
qed

text \<open>
  Row \<open>j\<close> of batch \<open>k\<close> is sequence \<open>k * b + j\<close> followed by pad tokens only, and every row
  of a batch has the length of the longest sequence of that batch.
\<close>

lemma batch_by_instances_bound_rows:
  assumes "''torch'' \<in> set g" "0 < batch_size"
    and "batch_by_instances g device sequences labels batch_size pad_token = Inr (bx, bys)"
    and "k < length bx" "j < length (bx ! k)"
  shows "k * nat batch_size + j < length sequences
       \<and> (\<exists>p. bx ! k ! j = sequences ! (k * nat batch_size + j) @ replicate p pad_token)
       \<and> length (bx ! k ! j) =
           Max (length ` set (take (nat batch_size) (drop (k * nat batch_size) sequences)))"
proof -
  define b where "b = nat batch_size"
  define chunk where "chunk = take b (drop (k * b) sequences)"
  define m where "m = Max (length ` set chunk)"
  have bxk: "bx ! k = map (pad_seq m pad_token) chunk"
    using assms(3,4) unfolding batch_by_instances_bound[OF assms(1,2)]
    by (auto simp: b_def chunk_def m_def)
  then have j: "j < length chunk" using assms(5) by simp
  then have jb: "j < b" and jl: "j < length sequences - k * b"
    by (simp_all add: chunk_def)
  from jl have idx: "k * b + j < length sequences" by linarith
  have "chunk ! j = drop (k * b) sequences ! j" using jb by (simp add: chunk_def)
  also have "\<dots> = sequences ! (k * b + j)" using idx by simp
  finally have el: "chunk ! j = sequences ! (k * b + j)" .
  have "chunk ! j \<in> set chunk" using j by simp
  then have le: "length (chunk ! j) \<le> m" unfolding m_def by simp
  have row: "bx ! k ! j = pad_seq m pad_token (chunk ! j)" using bxk j by simp
  have "bx ! k ! j = sequences ! (k * b + j) @ replicate (m - length (chunk ! j)) pad_token"
    using row el by (simp add: pad_seq_def)
  moreover have "length (bx ! k ! j) = m" using row le by (simp add: length_pad_seq)
  ultimately show ?thesis using idx unfolding m_def chunk_def b_def by blast
qed

text \<open>The label batches, concatenated, are the labels.\<close>

lemma batch_by_instances_bound_labels:
  assumes "''torch'' \<in> set g" "0 < batch_size"
    and "batch_by_instances g device sequences labels batch_size pad_token = Inr (bx, bys)"
    and "length labels = length sequences"
  shows "concat bys = labels"
proof -
  have b: "0 < nat batch_size" using assms(2) by simp
  have "bys = map (\<lambda>k. take (nat batch_size) (drop (k * nat batch_size) labels))
            [0..<(length sequences + nat batch_size - 1) div nat batch_size]"
    using assms(3) unfolding batch_by_instances_bound[OF assms(1,2)] by simp
  then have "concat bys =
      take ((length sequences + nat batch_size - 1) div nat batch_size * nat batch_size) labels"
    by (simp only: concat_chunks)
  then show ?thesis using chunks_cover[OF b, of "length sequences"] assms(4) by simp
qed

text \<open>The example of the specification, in the namespace of \<^verbatim>\<open>utils.py\<close> extended by \<^verbatim>\<open>torch\<close>.\<close>

lemma batch_by_instances_bound_example:
  "batch_by_instances (''torch'' # utils_globals) () [[1, 2], [3]] [0, 1] 2 0
     = Inr ([[[1, 2], [3, 0]]], [[0, 1]])"
  by (simp add: batch_by_instances_def batch_loop.simps lookup_global_def py_max_def pad_seq_def)

section \<open>Properties of \<^verbatim>\<open>split_data\<close> and \<^verbatim>\<open>load_reddit\<close>\<close>

lemma rev_shuffle_permutes: "shuffle_permutes rev_shuffle"
  by (simp add: shuffle_permutes_def rev_shuffle_def)

lemma ceil_split_partitions: "split_partitions ceil_split"
proof -
  have "mset (drop k ds) + mset (take k ds) = mset ds" for k and ds :: "'a list"
    by (metis add.commute append_take_drop_id mset_append)
  then show ?thesis
    by (auto simp: split_partitions_def ceil_split_def Let_def split: if_splits)
qed

text \<open>
  The three parts that \<^verbatim>\<open>split_data\<close> returns hold, between them, each row of the dataset
  as many times as the dataset does.
\<close>

lemma split_data_mset:
  assumes "shuffle_permutes sh" "split_partitions tts"
    and "split_data sh tts g dataset train_split val_split = Inr ((tr, va, te), g')"
  shows "mset tr + mset va + mset te = mset dataset"
proof -
  obtain shuffled g1 where sh: "sh g dataset = (shuffled, g1)" by (cases "sh g dataset")
  from assms(3) sh obtain held_out g2 where
    first: "tts g1 (1 - train_split) shuffled = Inr ((tr, held_out), g2)" and
    second: "tts g2 (1 - val_split / (1 - train_split)) held_out = Inr ((va, te), g')"
    by (auto simp: split_data_def split: sum.splits if_splits prod.splits)
  from assms(1) sh have "mset shuffled = mset dataset"
    unfolding shuffle_permutes_def by (metis fst_conv)
  moreover from assms(2) first have "mset tr + mset held_out = mset shuffled"
    unfolding split_partitions_def by blast
  moreover from assms(2) second have "mset va + mset te = mset held_out"
    unfolding split_partitions_def by blast
  ultimately show ?thesis by (simp add: add.assoc)
qed

lemma mset_parts_disjoint:
  assumes "mset xs + mset ys + mset zs = mset ds" "distinct ds"
  shows "set xs \<inter> set ys = {} \<and> set xs \<inter> set zs = {} \<and> set ys \<inter> set zs = {}"
proof -
  have "mset (xs @ ys @ zs) = mset ds" using assms(1) by (simp add: add.assoc)
  then have "distinct (xs @ ys @ zs)" using assms(2) by (metis mset_eq_imp_distinct_iff)
  then show ?thesis by auto
qed

text \<open>
  C5. Provided the library's shuffle and split neither lose nor repeat rows, the three parts
  returned by \<^verbatim>\<open>split_data\<close>, for any ratios, partition the dataset: their sizes add up to
  its size exactly, and when the rows are told apart (no row occurs twice in the dataset) no
  row is in two parts.
\<close>

theorem split_data_partition:
  assumes "shuffle_permutes sh" "split_partitions tts"
    and "split_data sh tts g dataset train_split val_split = Inr ((tr, va, te), g')"
  shows "mset tr + mset va + mset te = mset dataset
       \<and> length tr + length va + length te = length dataset
       \<and> (distinct dataset \<longrightarrow>
            set tr \<inter> set va = {} \<and> set tr \<inter> set te = {} \<and> set va \<inter> set te = {})"
proof -
  have m: "mset tr + mset va + mset te = mset dataset"
    using assms by (rule split_data_mset)
  then have "size (mset tr + mset va + mset te) = size (mset dataset)" by simp
  then have "length tr + length va + length te = length dataset" by simp
  with m show ?thesis using mset_parts_disjoint[OF m] by blast
qed

theorem split_data_partition_witness:
  "split_data rev_shuffle ceil_split () [1, 2, 3, 4, 5, 6, 7, 8, 9, 10 :: nat] (7 / 10) (1 / 5)
     = Inr (([7, 6, 5, 4, 3, 2, 1], [9, 8], [10]), ())
   \<and> distinct [1, 2, 3, 4, 5, 6, 7, 8, 9, 10 :: nat]
   \<and> length [7, 6, 5, 4, 3, 2, 1 :: nat] + length [9, 8 :: nat] + length [10 :: nat]
       = length [1, 2, 3, 4, 5, 6, 7, 8, 9, 10 :: nat]
   \<and> set [7, 6, 5, 4, 3, 2, 1 :: nat] \<inter> set [9, 8] = {}
   \<and> set [7, 6, 5, 4, 3, 2, 1 :: nat] \<inter> set [10] = {}
   \<and> set [9, 8 :: nat] \<inter> set [10] = {}"
proof -
  have run: "split_data rev_shuffle ceil_split () [1, 2, 3, 4, 5, 6, 7, 8, 9, 10 :: nat]
      (7 / 10) (1 / 5) = Inr (([7, 6, 5, 4, 3, 2, 1], [9, 8], [10]), ())"
    by (simp add: split_data_def rev_shuffle_def ceil_split_def)
  have d: "distinct [1, 2, 3, 4, 5, 6, 7, 8, 9, 10 :: nat]" by simp
  from split_data_partition[OF rev_shuffle_permutes ceil_split_partitions run] d
  have "length [7, 6, 5, 4, 3, 2, 1 :: nat] + length [9, 8 :: nat] + length [10 :: nat]
       = length [1, 2, 3, 4, 5, 6, 7, 8, 9, 10 :: nat]
   \<and> set [7, 6, 5, 4, 3, 2, 1 :: nat] \<inter> set [9, 8] = {}
   \<and> set [7, 6, 5, 4, 3, 2, 1 :: nat] \<inter> set [10] = {}
   \<and> set [9, 8 :: nat] \<inter> set [10] = {}"
    by blast
  with run d show ?thesis by blast
qed

text \<open>
  What \<^verbatim>\<open>load_reddit\<close> returns: the three parts of a split of the filtered rows with their
  \<^verbatim>\<open>doc_len\<close>, each part sorted.
\<close>

lemma load_reddit_parts:
  assumes "load_reddit sh tts g short_train long_train train_split val_split min_len
             = Inr ((tr, va, te), g')"
  obtains tr0 va0 te0 where
    "split_data sh tts g
       (map add_doc_len
          (filter (long_enough min_len) (map short_row short_train @ map long_row long_train)))
       train_split val_split = Inr ((tr0, va0, te0), g')"
    "tr = sort_key doc_len tr0" "va = sort_key doc_len va0" "te = sort_key doc_len te0"
  using assms by (auto simp: load_reddit_def Let_def split: sum.splits prod.splits)

lemma load_reddit_rows:
  assumes "shuffle_permutes sh" "split_partitions tts"
    and "load_reddit sh tts g short_train long_train train_split val_split min_len
           = Inr ((tr, va, te), g')"
    and "x \<in> set tr \<union> set va \<union> set te"
  shows "\<exists>y. x = add_doc_len y \<and> long_enough min_len y"
proof -
  from assms(3) obtain tr0 va0 te0 where
    split: "split_data sh tts g
       (map add_doc_len
          (filter (long_enough min_len) (map short_row short_train @ map long_row long_train)))
       train_split val_split = Inr ((tr0, va0, te0), g')"
    and parts: "tr = sort_key doc_len tr0" "va = sort_key doc_len va0" "te = sort_key doc_len te0"
    by (rule load_reddit_parts)
  have "mset tr0 + mset va0 + mset te0 =
      mset (map add_doc_len
          (filter (long_enough min_len) (map short_row short_train @ map long_row long_train)))"
    using assms(1,2) split by (rule split_data_mset)
  then have "set_mset (mset tr0 + mset va0 + mset te0) =
      set (map add_doc_len
          (filter (long_enough min_len) (map short_row short_train @ map long_row long_train)))"
    by (metis set_mset_mset)
  then have "set tr0 \<union> set va0 \<union> set te0 =
      set (map add_doc_len
          (filter (long_enough min_len) (map short_row short_train @ map long_row long_train)))"
    by simp
  moreover have "x \<in> set tr0 \<union> set va0 \<union> set te0"
    using assms(4) parts by simp
  ultimately have "x \<in> set (map add_doc_len
          (filter (long_enough min_len) (map short_row short_train @ map long_row long_train)))"
    by simp
  then show ?thesis by auto
qed

text \<open>
  C6. Each part returned by \<^verbatim>\<open>load_reddit\<close> is sorted non-decreasingly in \<^verbatim>\<open>doc_len\<close>,
  and (provided the library's shuffle and split neither lose nor repeat rows) \<^verbatim>\<open>doc_len\<close>
  of each returned instance is the length of its document.
\<close>

theorem load_reddit_sorted_by_doc_len:
  assumes "shuffle_permutes sh" "split_partitions tts"
    and "load_reddit sh tts g short_train long_train train_split val_split min_len
           = Inr ((tr, va, te), g')"
  shows "sorted (map doc_len tr) \<and> sorted (map doc_len va) \<and> sorted (map doc_len te)
       \<and> (\<forall>x \<in> set tr \<union> set va \<union> set te. doc_len x = length (document x))"
proof -
  from assms(3) obtain tr0 va0 te0 where
    "tr = sort_key doc_len tr0" "va = sort_key doc_len va0" "te = sort_key doc_len te0"
    by (rule load_reddit_parts)
  then have "sorted (map doc_len tr) \<and> sorted (map doc_len va) \<and> sorted (map doc_len te)"
    by simp
  moreover have "doc_len x = length (document x)" if "x \<in> set tr \<union> set va \<union> set te" for x
  proof -
    from load_reddit_rows[OF assms that] obtain y where "x = add_doc_len y" by blast
    then show ?thesis by (simp add: add_doc_len_def)
  qed
  ultimately show ?thesis by blast
qed

theorem load_reddit_sorted_by_doc_len_witness:
  "load_reddit rev_shuffle ceil_split () sample_short sample_long (1 / 2) (1 / 4) 2 =
     Inr (([\<lparr>document = ''abcdef'', summary = ''abc'', doc_len = 6\<rparr>,
            \<lparr>document = ''abcdefgh'', summary = ''abcd'', doc_len = 8\<rparr>],
           [\<lparr>document = ''abcde'', summary = ''abc'', doc_len = 5\<rparr>],
           [\<lparr>document = ''abcdefghij'', summary = ''abcde'', doc_len = 10\<rparr>]), ())
   \<and> sorted (map doc_len
        [\<lparr>document = ''abcdef'', summary = ''abc'', doc_len = 6\<rparr>,
         \<lparr>document = ''abcdefgh'', summary = ''abcd'', doc_len = 8\<rparr>])
   \<and> sorted (map doc_len [\<lparr>document = ''abcde'', summary = ''abc'', doc_len = 5\<rparr>])
   \<and> sorted (map doc_len [\<lparr>document = ''abcdefghij'', summary = ''abcde'', doc_len = 10\<rparr>])"
proof -
  have run: "load_reddit rev_shuffle ceil_split () sample_short sample_long (1 / 2) (1 / 4) 2 =
     Inr (([\<lparr>document = ''abcdef'', summary = ''abc'', doc_len = 6\<rparr>,
            \<lparr>document = ''abcdefgh'', summary = ''abcd'', doc_len = 8\<rparr>],
           [\<lparr>document = ''abcde'', summary = ''abc'', doc_len = 5\<rparr>],
           [\<lparr>document = ''abcdefghij'', summary = ''abcde'', doc_len = 10\<rparr>]), ())"
    by (simp add: load_reddit_def split_data_def rev_shuffle_def ceil_split_def
        sample_short_def sample_long_def short_row_def long_row_def long_enough_def
        add_doc_len_def)
  from load_reddit_sorted_by_doc_len[OF rev_shuffle_permutes ceil_split_partitions run] run
  show ?thesis by blast
qed

text \<open>
  C7. Provided the library's shuffle and split neither lose nor repeat rows, every instance
  in a part returned by \<^verbatim>\<open>load_reddit\<close> passes the filter: its document and its summary are
  longer than \<^verbatim>\<open>min_len\<close> (and the document is longer than the summary).
\<close>

theorem load_reddit_passes_filter:
  assumes "shuffle_permutes sh" "split_partitions tts"
    and "load_reddit sh tts g short_train long_train train_split val_split min_len
           = Inr ((tr, va, te), g')"
  shows "\<forall>x \<in> set tr \<union> set va \<union> set te.
           int (length (document x)) > min_len
         \<and> int (length (summary x)) > min_len
         \<and> length (document x) > length (summary x)"
proof
  fix x assume "x \<in> set tr \<union> set va \<union> set te"
  from load_reddit_rows[OF assms this] obtain y where
    "x = add_doc_len y" "long_enough min_len y" by blast
  then show "int (length (document x)) > min_len
         \<and> int (length (summary x)) > min_len
         \<and> length (document x) > length (summary x)"
    by (simp add: add_doc_len_def long_enough_def)
qed

theorem load_reddit_passes_filter_witness:
  "load_reddit rev_shuffle ceil_split () sample_short sample_long (3 / 5) (1 / 5) 1 =
     Inr (([\<lparr>document = ''abcd'', summary = ''ab'', doc_len = 4\<rparr>,
            \<lparr>document = ''abcdef'', summary = ''abc'', doc_len = 6\<rparr>,
            \<lparr>document = ''abcdefgh'', summary = ''abcd'', doc_len = 8\<rparr>],
           [\<lparr>document = ''abcde'', summary = ''abc'', doc_len = 5\<rparr>],
           [\<lparr>document = ''abcdefghij'', summary = ''abcde'', doc_len = 10\<rparr>]), ())
   \<and> int (length (document \<lparr>document = ''abcd'', summary = ''ab'', doc_len = 4\<rparr>)) > 1
   \<and> int (length (summary \<lparr>document = ''abcd'', summary = ''ab'', doc_len = 4\<rparr>)) > 1
   \<and> int (length (document \<lparr>document = ''abcdefghij'', summary = ''abcde'', doc_len = 10\<rparr>)) > 1
   \<and> int (length (summary \<lparr>document = ''abcdefghij'', summary = ''abcde'', doc_len = 10\<rparr>)) > 1"
proof -
  have run: "load_reddit rev_shuffle ceil_split () sample_short sample_long (3 / 5) (1 / 5) 1 =
     Inr (([\<lparr>document = ''abcd'', summary = ''ab'', doc_len = 4\<rparr>,
            \<lparr>document = ''abcdef'', summary = ''abc'', doc_len = 6\<rparr>,
            \<lparr>document = ''abcdefgh'', summary = ''abcd'', doc_len = 8\<rparr>],
           [\<lparr>document = ''abcde'', summary = ''abc'', doc_len = 5\<rparr>],
           [\<lparr>document = ''abcdefghij'', summary = ''abcde'', doc_len = 10\<rparr>]), ())"
    by (simp add: load_reddit_def split_data_def rev_shuffle_def ceil_split_def
        sample_short_def sample_long_def short_row_def long_row_def long_enough_def
        add_doc_len_def)
  from load_reddit_passes_filter[OF rev_shuffle_permutes ceil_split_partitions run] run
  show ?thesis by simp
qed

end
